theory Spec2Isabelle
  imports Main
begin

section \<open>Strings and JavaScript truthiness\<close>

type_synonym key = string

text \<open>\<open>Number.prototype.toString\<close> on an integer: decimal digits, a leading minus sign.\<close>

fun digits :: "nat \<Rightarrow> string" where
  "digits n = (if n < 10 then [''0123456789'' ! n]
               else digits (n div 10) @ [''0123456789'' ! (n mod 10)])"

declare digits.simps [simp del]

definition toString :: "int \<Rightarrow> string" where
  "toString i = (if i < 0 then CHR ''-'' # digits (nat (- i)) else digits (nat i))"

text \<open>\<open>s.startsWith(p)\<close> and \<open>s.includes(p)\<close> (\<open>includes\<close> is a keyword of Isabelle).\<close>

definition startsWith :: "string \<Rightarrow> string \<Rightarrow> bool" where
  "startsWith s p = (take (length p) s = p)"

fun includes_str :: "string \<Rightarrow> string \<Rightarrow> bool" where
  "includes_str [] p = (p = [])"
| "includes_str (c # cs) p = (startsWith (c # cs) p \<or> includes_str cs p)"

text \<open>An optional string property is truthy when it is present and not the empty string.\<close>

definition truthy_str :: "string option \<Rightarrow> bool" where
  "truthy_str v = (case v of None \<Rightarrow> False | Some s \<Rightarrow> s \<noteq> [])"

text \<open>A nullable number is truthy when it is present and not zero.\<close>

definition truthy_num :: "int option \<Rightarrow> bool" where
  "truthy_num v = (case v of None \<Rightarrow> False | Some n \<Rightarrow> n \<noteq> 0)"

text \<open>\<open>a - b\<close> where \<open>b\<close> may be \<open>null\<close>: \<open>null\<close> coerces to 0.\<close>

definition minus_nullable :: "int \<Rightarrow> int option \<Rightarrow> int" where
  "minus_nullable a b = (case b of None \<Rightarrow> a | Some t \<Rightarrow> a - t)"

section \<open>Data model (src/types/index.ts)\<close>

record PostSource =
  name :: string
  imageuri :: "string option"

text \<open>The field \<open>id\<close> of the source is \<open>post_id\<close> here (\<open>id\<close> is the identity function of HOL).\<close>

record Post =
  post_id :: int
  uri :: string
  caption :: "string option"
  source :: "PostSource option"
  likes :: "int option"
  facts :: "string list option"
  tags :: "string list option"
  originalUri :: "string option"
  streamingUrl :: "string option"
  fallbackUrl :: "string option"
  isStreaming :: "bool option"

datatype answer_value = AnswerStr string | AnswerNum int | AnswerBool bool

record SurveyResponse =
  questionId :: string
  answer :: answer_value
  timestamp :: int

text \<open>React Native's \<open>AppStateStatus\<close>.\<close>

datatype AppStateStatus = active | background | inactive | unknown | extension

text \<open>A promise that has settled.\<close>

datatype 'a settled = Resolved 'a | Rejected string

section \<open>Bundled catalog (src/constants/videos.ts)\<close>

definition usaToday :: PostSource where
  "usaToday = \<lparr>name = ''USA Today'', imageuri = Some ''https://i.imgur.com/P8OOZMm.png''\<rparr>"

definition bundled :: "int \<Rightarrow> string \<Rightarrow> int \<Rightarrow> Post" where
  "bundled i u l =
     \<lparr>post_id = i, uri = u,
      caption = Some ''A short caption similar to explanatory headline.'',
      source = Some usaToday, likes = Some l, facts = Some [], tags = Some [],
      originalUri = None, streamingUrl = None, fallbackUrl = None, isStreaming = None\<rparr>"

definition VIDEOS :: "Post list" where
  "VIDEOS =
    [bundled 1 ''https://drive.google.com/uc?export=download&id=1567uKxxJx9J5uvf0BbLU-Qipe0YZZl39'' 3800,
     bundled 2 ''https://drive.google.com/uc?export=download&id=17QAoPwiSeQjm-v8uO3gp7BymemHCzh_T'' 2500,
     bundled 3 ''https://drive.google.com/uc?export=download&id=19YlJ9AcQJxlocoe3puA5aHriaKtvufB8'' 1900,
     bundled 4 ''https://drive.google.com/uc?export=download&id=1ZiEPJPjTlYUnOabU7UjnoFtrbT6JNKaJ'' 4200,
     bundled 5 ''https://drive.google.com/uc?export=download&id=1h2Ns1ZKui5XPB8c1sUxHMPKB7ElVB5sW'' 3100,
     bundled 6 ''https://drive.google.com/uc?export=download&id=1jrZaKS8ZkycMCCW9wdcLQuJTuh4p8WS0'' 2800,
     bundled 7 ''https://drive.google.com/uc?export=download&id=1pqHpIZuIR3rCDhdYJkDB6BOYEcwV7ejG'' 3500]"

section \<open>Source resolution (src/services/api/index.ts)\<close>

definition API_BASE_URL :: string where
  "API_BASE_URL = ''http://192.168.1.10:3000/api''"

text \<open>\<open>API_BASE_URL.replace('/api', '')\<close>.\<close>

definition API_HOST :: string where
  "API_HOST = ''http://192.168.1.10:3000''"

text \<open>
  \<open>checkStreamingAvailability\<close>: the \<open>HEAD\<close> request is the parameter \<open>head_ok\<close>, true
  when the response is \<open>ok\<close>; a request that throws is caught and gives \<open>null\<close>, like a
  response that is not \<open>ok\<close>.
\<close>

definition checkStreamingAvailability :: "(string \<Rightarrow> bool) \<Rightarrow> string \<Rightarrow> string option" where
  "checkStreamingAvailability head_ok videoId =
     (let streamingUrl = API_BASE_URL @ ''/stream/video/'' @ videoId
      in if head_ok streamingUrl then Some streamingUrl else None)"

definition getBestVideoUrl :: "(string \<Rightarrow> bool) \<Rightarrow> Post \<Rightarrow> string" where
  "getBestVideoUrl head_ok post =
     (if truthy_str (streamingUrl post) then (case streamingUrl post of Some u \<Rightarrow> u | None \<Rightarrow> [])
      else
        (case (if post_id post \<noteq> 0
               then checkStreamingAvailability head_ok (toString (post_id post)) else None) of
           Some u \<Rightarrow> u
         | None \<Rightarrow>
            (case (if uri post \<noteq> [] \<and> \<not> startsWith (uri post) ''http''
                   then checkStreamingAvailability head_ok (uri post) else None) of
               Some u \<Rightarrow> u
             | None \<Rightarrow>
                (if truthy_str (fallbackUrl post)
                 then (case fallbackUrl post of Some u \<Rightarrow> u | None \<Rightarrow> [])
                 else uri post))))"

section \<open>The Post component: playback handle and load errors (components/post, src/unnamed/part_003)\<close>

text \<open>
  The expo-av player behind \<open>videoRef\<close>. \<open>rejects\<close> says that the native player rejects
  the calls made to it (it is released, or not ready); a rejected call changes nothing.
\<close>

record av_player =
  shouldPlay :: bool
  isLoaded :: bool
  rejects :: bool

definition setStatusAsync :: "bool \<Rightarrow> av_player \<Rightarrow> av_player settled" where
  "setStatusAsync b p =
     (if rejects p then Rejected ''player unavailable'' else Resolved (p\<lparr>shouldPlay := b\<rparr>))"

definition unloadAsync :: "av_player \<Rightarrow> av_player settled" where
  "unloadAsync p =
     (if rejects p then Rejected ''player unavailable'' else Resolved (p\<lparr>isLoaded := False\<rparr>))"

text \<open>
  The state of one mounted Post: \<open>videoRef\<close> is \<open>videoRef.current\<close> (\<open>None\<close> once React
  has detached the ref), the rest is the component's \<open>useState\<close> cells.
\<close>

record PostComponent =
  videoRef :: "av_player option"
  videoSource :: string
  hasError :: bool
  isLoading :: bool

text \<open>The three methods of \<open>useImperativeHandle\<close>: the settled promise and the new state.\<close>

definition play :: "PostComponent \<Rightarrow> unit settled \<times> PostComponent" where
  "play c =
     (case videoRef c of
        None \<Rightarrow> (Resolved (), c)
      | Some p \<Rightarrow>
         (case setStatusAsync True p of
            Resolved p' \<Rightarrow> (Resolved (), c\<lparr>videoRef := Some p'\<rparr>)
          | Rejected e \<Rightarrow> (Resolved (), c)))"

definition pause :: "PostComponent \<Rightarrow> unit settled \<times> PostComponent" where
  "pause c =
     (case videoRef c of
        None \<Rightarrow> (Resolved (), c)
      | Some p \<Rightarrow>
         (case setStatusAsync False p of
            Resolved p' \<Rightarrow> (Resolved (), c\<lparr>videoRef := Some p'\<rparr>)
          | Rejected e \<Rightarrow> (Resolved (), c)))"

definition unload :: "PostComponent \<Rightarrow> unit settled \<times> PostComponent" where
  "unload c =
     (case videoRef c of
        None \<Rightarrow> (Resolved (), c)
      | Some p \<Rightarrow>
         (case unloadAsync p of
            Resolved p' \<Rightarrow> (Resolved (), c\<lparr>videoRef := Some p', isLoading := True\<rparr>)
          | Rejected e \<Rightarrow> (Resolved (), c)))"

definition is_playing :: "PostComponent \<Rightarrow> bool" where
  "is_playing c = (case videoRef c of None \<Rightarrow> False | Some p \<Rightarrow> shouldPlay p)"

text \<open>\<open>useState({ uri: data.uri })\<close>, \<open>useState(false)\<close>, \<open>useState(true)\<close>.\<close>

definition mountPost :: "Post \<Rightarrow> av_player \<Rightarrow> PostComponent" where
  "mountPost data p =
     \<lparr>videoRef = Some p, videoSource = uri data, hasError = False, isLoading = True\<rparr>"

definition handleVideoError :: "Post \<Rightarrow> PostComponent \<Rightarrow> PostComponent" where
  "handleVideoError data c =
     (if isStreaming data = Some True \<and> truthy_str (fallbackUrl data) \<and> \<not> hasError c then
        c\<lparr>videoSource := (case fallbackUrl data of Some u \<Rightarrow> u | None \<Rightarrow> []),
          hasError := True, isLoading := True\<rparr>
      else if truthy_str (originalUri data) \<and> originalUri data \<noteq> Some (videoSource c)
              \<and> \<not> hasError c then
        c\<lparr>videoSource := (case originalUri data of Some u \<Rightarrow> u | None \<Rightarrow> []),
          hasError := True, isLoading := True\<rparr>
      else
        c\<lparr>isLoading := False, hasError := True\<rparr>)"

text \<open>The terminal state of the last branch: an error is shown and nothing is loading.\<close>

definition exhausted :: "PostComponent \<Rightarrow> bool" where
  "exhausted c = (hasError c \<and> \<not> isLoading c)"

text \<open>
  The sources that \<open>n\<close> load failures in a row make the component try: each failure runs
  \<open>handleVideoError\<close>, which starts a new load when it sets a source (and \<open>isLoading\<close>).
\<close>

fun retries :: "Post \<Rightarrow> nat \<Rightarrow> PostComponent \<Rightarrow> string list" where
  "retries data 0 c = []"
| "retries data (Suc n) c =
     (let c' = handleVideoError data c
      in (if isLoading c' then [videoSource c'] else []) @ retries data n c')"

fun after_failures :: "Post \<Rightarrow> nat \<Rightarrow> PostComponent \<Rightarrow> PostComponent" where
  "after_failures data 0 c = c"
| "after_failures data (Suc n) c = after_failures data n (handleVideoError data c)"

definition load_attempts :: "Post \<Rightarrow> av_player \<Rightarrow> nat \<Rightarrow> string list" where
  "load_attempts data p n = uri data # retries data n (mountPost data p)"

section \<open>Feed state\<close>

text \<open>
  \<open>lastViewedRef.current\<close>: the viewing session that is open, if any.
\<close>

record LastViewed =
  startTime :: "int option"
  contentId :: "key option"

definition noSession :: LastViewed where
  "noSession = \<lparr>startTime = None, contentId = None\<rparr>"

text \<open>One entry of \<open>viewableItems\<close> or \<open>changed\<close>, as the list hands it to the callback.\<close>

record ViewToken =
  item :: Post
  key :: key
  index :: int
  isViewable :: bool

text \<open>The calls a callback issues, in order (a ghost trace; it changes no behaviour).\<close>

datatype call = Play key | Pause key | ShowSurvey

text \<open>
  One record holds the mutable cells of both feed screens and of the video context.
  \<^item> \<open>videos\<close>, \<open>surveyResponses\<close>, \<open>ctxLastViewedRef\<close>: \<open>useState\<close>/\<open>useRef\<close> of
    \<open>VideoProvider\<close> (\<open>ctxLastViewedRef\<close> is the provider's own \<open>lastViewedRef\<close>);
  \<^item> \<open>timeSpent\<close>, \<open>maxScrollDepth\<close>, \<open>videoCount\<close>: \<open>useState\<close> of \<open>VideoProvider\<close>
    for \<open>Feed/index.tsx\<close>, and of the screen itself for the older screen;
  \<^item> \<open>mediaRefs\<close>, \<open>showSurvey\<close>, \<open>lastViewedRef\<close>: refs and state of the screen
    (\<open>mediaRefs\<close> maps an id to the mounted Post, \<open>None\<close> for \<open>null\<close> or no entry);
  \<^item> \<open>appStateRef\<close>: ref of \<open>Feed/index.tsx\<close> only.
\<close>

record FeedModel =
  videos :: "Post list"
  timeSpent :: "key \<rightharpoonup> int"
  maxScrollDepth :: int
  videoCount :: int
  surveyResponses :: "SurveyResponse list"
  ctxLastViewedRef :: LastViewed
  mediaRefs :: "key \<rightharpoonup> PostComponent"
  appStateRef :: AppStateStatus
  showSurvey :: bool
  lastViewedRef :: LastViewed
  calls :: "call list"

section \<open>Video context (context/VideoContext, the second part of src/constants/videos.ts)\<close>

text \<open>The updater \<open>prev => ({ ...prev, [id]: (prev[id] || 0) + duration })\<close>.\<close>

definition addTime :: "key \<Rightarrow> int \<Rightarrow> (key \<rightharpoonup> int) \<Rightarrow> (key \<rightharpoonup> int)" where
  "addTime videoId duration prev =
     prev(videoId \<mapsto> (case prev videoId of None \<Rightarrow> 0 | Some v \<Rightarrow> v) + duration)"

definition updateTimeSpent :: "key \<Rightarrow> int \<Rightarrow> FeedModel \<Rightarrow> FeedModel" where
  "updateTimeSpent videoId duration s = s\<lparr>timeSpent := addTime videoId duration (timeSpent s)\<rparr>"

definition updateScrollDepth :: "int \<Rightarrow> FeedModel \<Rightarrow> FeedModel" where
  "updateScrollDepth depth s = s\<lparr>maxScrollDepth := max (maxScrollDepth s) depth\<rparr>"

definition incrementVideoCount :: "FeedModel \<Rightarrow> FeedModel" where
  "incrementVideoCount s = s\<lparr>videoCount := videoCount s + 1\<rparr>"

definition saveSurveyResponse :: "SurveyResponse \<Rightarrow> FeedModel \<Rightarrow> FeedModel" where
  "saveSurveyResponse response s = s\<lparr>surveyResponses := surveyResponses s @ [response]\<rparr>"

definition resetMetrics :: "FeedModel \<Rightarrow> FeedModel" where
  "resetMetrics s =
     s\<lparr>timeSpent := Map.empty, maxScrollDepth := 0, videoCount := 0,
       ctxLastViewedRef := noSession\<rparr>"

text \<open>The operations the context exposes to its consumers.\<close>

datatype metrics_op =
    UpdateTimeSpent key int
  | UpdateScrollDepth int
  | IncrementVideoCount
  | SaveSurveyResponse SurveyResponse
  | ResetMetrics

fun apply_op :: "metrics_op \<Rightarrow> FeedModel \<Rightarrow> FeedModel" where
  "apply_op (UpdateTimeSpent k d) s = updateTimeSpent k d s"
| "apply_op (UpdateScrollDepth d) s = updateScrollDepth d s"
| "apply_op IncrementVideoCount s = incrementVideoCount s"
| "apply_op (SaveSurveyResponse r) s = saveSurveyResponse r s"
| "apply_op ResetMetrics s = resetMetrics s"

text \<open>
  \<open>fetchVideos\<close>. The argument \<open>r\<close> is what \<open>await postsApi.getPosts()\<close> gives: \<open>Inl\<close> when
  the promise rejects (network error, a response that is not \<open>ok\<close>, a body that is not
  a list, on which \<open>posts.map\<close> throws), \<open>Inr\<close> the posts.
  With the typed \<open>Post\<close> of this model \<open>getBestVideoUrl\<close> cannot throw, so the inner
  \<open>catch\<close> has no branch.
\<close>

definition processVideo :: "(string \<Rightarrow> bool) \<Rightarrow> Post \<Rightarrow> Post" where
  "processVideo head_ok video =
     (let bestUrl = getBestVideoUrl head_ok video
      in video\<lparr>uri := bestUrl, originalUri := Some (uri video),
               isStreaming := Some (includes_str bestUrl ''/stream/'')\<rparr>)"

definition fetchVideos :: "(string \<Rightarrow> bool) \<Rightarrow> string + Post list \<Rightarrow> FeedModel \<Rightarrow> FeedModel" where
  "fetchVideos head_ok r s =
     (case r of
        Inr apiVideos \<Rightarrow>
          (if length apiVideos > 0 then s\<lparr>videos := map (processVideo head_ok) apiVideos\<rparr>
           else s\<lparr>videos := VIDEOS\<rparr>)
      | Inl e \<Rightarrow> s\<lparr>videos := VIDEOS\<rparr>)"

section \<open>Calls to the handle of a mounted post\<close>

text \<open>
  \<open>mediaRefs.current[k]?.play()\<close> behind a truthiness test of the entry: nothing happens
  when there is no entry. The promise is not awaited; the handle's state is updated.
\<close>

definition call_play :: "key \<Rightarrow> FeedModel \<Rightarrow> FeedModel" where
  "call_play k s =
     (case mediaRefs s k of
        None \<Rightarrow> s
      | Some c \<Rightarrow> s\<lparr>mediaRefs := (mediaRefs s)(k \<mapsto> snd (play c)), calls := calls s @ [Play k]\<rparr>)"

definition call_pause :: "key \<Rightarrow> FeedModel \<Rightarrow> FeedModel" where
  "call_pause k s =
     (case mediaRefs s k of
        None \<Rightarrow> s
      | Some c \<Rightarrow> s\<lparr>mediaRefs := (mediaRefs s)(k \<mapsto> snd (pause c)), calls := calls s @ [Pause k]\<rparr>)"

definition setShowSurveyTrue :: "FeedModel \<Rightarrow> FeedModel" where
  "setShowSurveyTrue s = s\<lparr>showSurvey := True, calls := calls s @ [ShowSurvey]\<rparr>"

definition playing :: "FeedModel \<Rightarrow> key \<Rightarrow> bool" where
  "playing s k = (case mediaRefs s k of None \<Rightarrow> False | Some c \<Rightarrow> is_playing c)"

section \<open>Feed screen, screens/Feed/index.tsx\<close>

text \<open>
  \<open>now\<close> is the value of \<open>Date.now()\<close>; the callback is synchronous, and every reading
  within one batch is taken to be the same millisecond. \<open>startVideoView\<close> and
  \<open>endVideoView\<close> return at once (\<open>isAnalyticsEnabled\<close> is false and never set).
\<close>

definition changedElement :: "int \<Rightarrow> ViewToken \<Rightarrow> FeedModel \<Rightarrow> FeedModel" where
  "changedElement now element s =
     (let videoId = toString (post_id (item element)) in
      if isViewable element then
        (let s1 = call_play videoId s;
             s2 = s1\<lparr>lastViewedRef := \<lparr>startTime = Some now, contentId = Some videoId\<rparr>\<rparr>;
             s3 = updateScrollDepth (index element + 1) s2
         in incrementVideoCount s3)
      else
        (let s1 = call_pause videoId s in
         if truthy_num (startTime (lastViewedRef s1))
            \<and> contentId (lastViewedRef s1) = Some videoId then
           (let duration = minus_nullable now (startTime (lastViewedRef s1));
                s2 = updateTimeSpent videoId duration s1
            in s2\<lparr>lastViewedRef := noSession\<rparr>)
         else s1))"

fun onViewableItemsChangedCallback :: "int \<Rightarrow> ViewToken list \<Rightarrow> FeedModel \<Rightarrow> FeedModel" where
  "onViewableItemsChangedCallback now [] s = s"
| "onViewableItemsChangedCallback now (element # rest) s =
     onViewableItemsChangedCallback now rest (changedElement now element s)"

definition handleAppStateChange :: "AppStateStatus \<Rightarrow> FeedModel \<Rightarrow> FeedModel" where
  "handleAppStateChange nextAppState s =
     (let s1 = (if nextAppState = inactive \<or> nextAppState = background then
                  (let sa = setShowSurveyTrue s in
                   if truthy_str (contentId (lastViewedRef sa))
                   then (case contentId (lastViewedRef sa) of
                           Some currentContentId \<Rightarrow> call_pause currentContentId sa | None \<Rightarrow> sa)
                   else sa)
                else s);
          s2 = (if nextAppState = active \<and> appStateRef s1 \<noteq> active then
                  (if truthy_str (contentId (lastViewedRef s1))
                   then (case contentId (lastViewedRef s1) of
                           Some currentContentId \<Rightarrow> call_play currentContentId s1 | None \<Rightarrow> s1)
                   else s1)
                else s1)
      in s2\<lparr>appStateRef := nextAppState\<rparr>)"



section \<open>Feed screen, older version (src/unnamed/part_001, the screen that imports ./style)\<close>

text \<open>
  This screen keeps \<open>timeSpent\<close>, \<open>maxScrollDepth\<close> and \<open>videoCount\<close> in its own state and
  does not use the video context. \<open>currentTime\<close> is the \<open>Date.now()\<close> at the start of the
  callback; the reading inside \<open>changed.forEach\<close> is taken to be the same millisecond.
  \<open>viewableItems[0]\<close> and the last item are read under the test that the list is not
  empty, as in the source.
\<close>

record Batch =
  viewableItems :: "ViewToken list"
  changed :: "ViewToken list"

text \<open>The updater of \<open>setVideoCount\<close>, which shows the survey at every fifth count.\<close>

definition setVideoCount_updater :: "FeedModel \<Rightarrow> FeedModel" where
  "setVideoCount_updater s =
     (let newCount = videoCount s + 1;
          s1 = (if newCount mod 5 = 0 then setShowSurveyTrue s else s)
      in s1\<lparr>videoCount := newCount\<rparr>)"

definition isNewVideoViewed :: "Batch \<Rightarrow> bool" where
  "isNewVideoViewed b =
     list_ex (\<lambda>it. isViewable it \<and> key it = key (hd (viewableItems b))) (changed b)"

definition changedElement_old :: "int \<Rightarrow> ViewToken \<Rightarrow> FeedModel \<Rightarrow> FeedModel" where
  "changedElement_old now element s =
     (case mediaRefs s (key element) of
        None \<Rightarrow> s
      | Some cell \<Rightarrow>
          (if isViewable element then call_play (key element) s
           else
             (let s1 = call_pause (key element) s in
              if Some (key element) = contentId (lastViewedRef s1) then
                (let duration = minus_nullable now (startTime (lastViewedRef s1))
                 in s1\<lparr>timeSpent := addTime (key element) duration (timeSpent s1)\<rparr>)
              else s1)))"

fun forEach_changed :: "int \<Rightarrow> ViewToken list \<Rightarrow> FeedModel \<Rightarrow> FeedModel" where
  "forEach_changed now [] s = s"
| "forEach_changed now (element # rest) s =
     forEach_changed now rest (changedElement_old now element s)"

definition onViewableItemsChanged :: "int \<Rightarrow> Batch \<Rightarrow> FeedModel \<Rightarrow> FeedModel" where
  "onViewableItemsChanged currentTime b s =
     (let s1 = (case contentId (lastViewedRef s) of
                  Some lastContentId \<Rightarrow>
                    (let duration = minus_nullable currentTime (startTime (lastViewedRef s))
                     in s\<lparr>timeSpent := addTime lastContentId duration (timeSpent s)\<rparr>)
                | None \<Rightarrow> s);
          s2 = (if length (viewableItems b) > 0 then
                  s1\<lparr>lastViewedRef :=
                       \<lparr>startTime = Some currentTime,
                        contentId = Some (key (hd (viewableItems b)))\<rparr>\<rparr>
                else s1);
          s3 = (if length (viewableItems b) > 0 then
                  s2\<lparr>maxScrollDepth := max (maxScrollDepth s2) (index (last (viewableItems b)))\<rparr>
                else s2);
          s4 = (if length (viewableItems b) > 0 then
                  (if isNewVideoViewed b then setVideoCount_updater s3 else s3)
                else s3)
      in forEach_changed currentTime (changed b) s4)"

fun batches :: "(int \<times> Batch) list \<Rightarrow> FeedModel \<Rightarrow> FeedModel" where
  "batches [] s = s"
| "batches ((t, b) # rest) s = batches rest (onViewableItemsChanged t b s)"

definition appStateListener :: "AppStateStatus \<Rightarrow> FeedModel \<Rightarrow> FeedModel" where
  "appStateListener nextAppState s =
     (let s1 = (if nextAppState = inactive \<or> nextAppState = background then
                  (let sa = setShowSurveyTrue s in
                   if truthy_str (contentId (lastViewedRef sa))
                   then (case contentId (lastViewedRef sa) of
                           Some currentContentId \<Rightarrow> call_pause currentContentId sa | None \<Rightarrow> sa)
                   else sa)
                else s)
      in if nextAppState = active then
           (if truthy_str (contentId (lastViewedRef s1))
            then (case contentId (lastViewedRef s1) of
                    Some currentContentId \<Rightarrow> call_play currentContentId s1 | None \<Rightarrow> s1)
            else s1)
         else s1)"

text \<open>The state of a screen that has just mounted, with the given posts mounted.\<close>

definition mountFeed :: "(key \<rightharpoonup> PostComponent) \<Rightarrow> AppStateStatus \<Rightarrow> FeedModel" where
  "mountFeed refs st =
     \<lparr>videos = [], timeSpent = Map.empty, maxScrollDepth = 0, videoCount = 0,
      surveyResponses = [], ctxLastViewedRef = noSession, mediaRefs = refs,
      appStateRef = st, showSurvey = False, lastViewedRef = noSession, calls = []\<rparr>"

section \<open>Event sequences\<close>

text \<open>
  What can happen to the screen of \<open>Feed/index.tsx\<close>: a viewability batch at a time, a
  change of the application state, a call of one of the context's operations.
\<close>

datatype feed_event =
    ViewabilityChanged int "ViewToken list"
  | AppStateChanged AppStateStatus
  | ContextOp metrics_op

fun feed_step :: "feed_event \<Rightarrow> FeedModel \<Rightarrow> FeedModel" where
  "feed_step (ViewabilityChanged now els) s = onViewableItemsChangedCallback now els s"
| "feed_step (AppStateChanged e) s = handleAppStateChange e s"
| "feed_step (ContextOp opn) s = apply_op opn s"

fun feed_events :: "feed_event list \<Rightarrow> FeedModel \<Rightarrow> FeedModel" where
  "feed_events [] s = s"
| "feed_events (e # es) s = feed_events es (feed_step e s)"

fun is_reset :: "feed_event \<Rightarrow> bool" where
  "is_reset (ContextOp ResetMetrics) = True"
| "is_reset _ = False"

text \<open>The same for the older screen, which keeps its metrics in its own state.\<close>

datatype old_event =
    OldViewabilityChanged int Batch
  | OldAppStateChanged AppStateStatus

fun old_step :: "old_event \<Rightarrow> FeedModel \<Rightarrow> FeedModel" where
  "old_step (OldViewabilityChanged now b) s = onViewableItemsChanged now b s"
| "old_step (OldAppStateChanged e) s = appStateListener e s"

fun old_events :: "old_event list \<Rightarrow> FeedModel \<Rightarrow> FeedModel" where
  "old_events [] s = s"
| "old_events (e # es) s = old_events es (old_step e s)"

section \<open>Reading the trace of calls\<close>

text \<open>
  The report that decides whether an item plays after a batch: the last entry of
  \<open>changed\<close> for that item (\<open>kf\<close> gives the id under which the screen looks the item up).
\<close>

fun last_report :: "(ViewToken \<Rightarrow> key) \<Rightarrow> key \<Rightarrow> ViewToken list \<Rightarrow> bool option" where
  "last_report kf k [] = None"
| "last_report kf k (e # es) =
     (case last_report kf k es of
        Some v \<Rightarrow> Some v
      | None \<Rightarrow> (if kf e = k then Some (isViewable e) else None))"

definition videoId_of :: "ViewToken \<Rightarrow> key" where
  "videoId_of element = toString (post_id (item element))"

text \<open>
  A batch of the older screen counts a viewed video when \<open>viewableItems\<close> is not empty
  and its first item is among the items that have just become viewable.
\<close>

definition activation :: "Batch \<Rightarrow> bool" where
  "activation b = (length (viewableItems b) > 0 \<and> isNewVideoViewed b)"

text \<open>
  The values of \<open>videoCount\<close> at which a run of batches showed the survey: a batch showed
  it when the trace holds one more \<open>ShowSurvey\<close> after the batch than before.
\<close>

fun survey_counts :: "(int \<times> Batch) list \<Rightarrow> FeedModel \<Rightarrow> int list" where
  "survey_counts [] s = []"
| "survey_counts ((t, b) # rest) s =
     (let s' = onViewableItemsChanged t b s
      in (if count_list (calls s') ShowSurvey > count_list (calls s) ShowSurvey
          then [videoCount s'] else [])
         @ survey_counts rest s')"


text \<open>
  The item \<open>k\<close> has a mounted post whose player is attached and accepts calls.
\<close>

definition working_handle :: "FeedModel \<Rightarrow> key \<Rightarrow> bool" where
  "working_handle s k =
     (case mediaRefs s k of
        None \<Rightarrow> False
      | Some c \<Rightarrow> (case videoRef c of None \<Rightarrow> False | Some p \<Rightarrow> \<not> rejects p))"

section \<open>processVideoUrls on a store of objects (src/services/api/index.ts)\<close>

text \<open>
  Whether a function mutates its argument is a question about shared objects: a post
  is an address in a store, \<open>{ ...post }\<close> allocates a new object with the same own
  properties, and an assignment changes the object at the address it names.
\<close>

datatype jsval = JUndefined | JNull | JBool bool | JNum int | JStr string | JRef nat

type_synonym jsobject = "string \<rightharpoonup> jsval"

type_synonym store = "jsobject list"

datatype js_error = TypeError

text \<open>The argument \<open>post\<close>: an object, \<open>null\<close> or \<open>undefined\<close>.\<close>

datatype post_arg = ArgNull | ArgUndefined | ArgObject nat

definition truthy :: "jsval \<Rightarrow> bool" where
  "truthy v =
     (case v of JUndefined \<Rightarrow> False | JNull \<Rightarrow> False | JBool b \<Rightarrow> b | JNum n \<Rightarrow> n \<noteq> 0
      | JStr s \<Rightarrow> s \<noteq> [] | JRef a \<Rightarrow> True)"

definition store_read :: "store \<Rightarrow> nat \<Rightarrow> string \<Rightarrow> jsval" where
  "store_read h a f = (case (h ! a) f of None \<Rightarrow> JUndefined | Some v \<Rightarrow> v)"

definition store_write :: "store \<Rightarrow> nat \<Rightarrow> string \<Rightarrow> jsval \<Rightarrow> store" where
  "store_write h a f v = h[a := (h ! a)(f \<mapsto> v)]"

text \<open>\<open>{ ...post }\<close>: the new store and the address of the copy.\<close>

definition spread_copy :: "store \<Rightarrow> nat \<Rightarrow> store \<times> nat" where
  "spread_copy h a = (h @ [h ! a], length h)"

text \<open>
  \<open>v && v.startsWith('/api/stream/')\<close> as a condition. A truthy value that is not a
  string has no method \<open>startsWith\<close>: the call throws.
\<close>

definition isStreamPath :: "jsval \<Rightarrow> js_error + bool" where
  "isStreamPath v =
     (if \<not> truthy v then Inr False
      else (case v of JStr u \<Rightarrow> Inr (startsWith u ''/api/stream/'') | _ \<Rightarrow> Inl TypeError))"

text \<open>The template literal \<open>`${API_BASE_URL.replace('/api', '')}${v}`\<close> of a string.\<close>

definition fullUrl :: "jsval \<Rightarrow> jsval" where
  "fullUrl v = (case v of JStr u \<Rightarrow> JStr (API_HOST @ u) | _ \<Rightarrow> v)"

definition js_or :: "jsval \<Rightarrow> jsval \<Rightarrow> jsval" where
  "js_or a b = (if truthy a then a else b)"

definition processVideoUrls :: "store \<Rightarrow> post_arg \<Rightarrow> store \<times> (js_error + post_arg)" where
  "processVideoUrls h post =
     (case post of
        ArgNull \<Rightarrow> (h, Inr ArgNull)
      | ArgUndefined \<Rightarrow> (h, Inr ArgUndefined)
      | ArgObject a \<Rightarrow>
          (let (h0, processedPost) = spread_copy h a in
           case isStreamPath (store_read h0 a ''uri'') of
             Inl e \<Rightarrow> (h0, Inl e)
           | Inr streaming \<Rightarrow>
              (let h3 =
                 (if streaming then
                    (let h1 = store_write h0 processedPost ''uri''
                                (fullUrl (store_read h0 a ''uri''));
                         h2 = store_write h1 processedPost ''streamingUrl''
                                (store_read h1 processedPost ''uri'')
                     in store_write h2 processedPost ''fallbackUrl''
                          (js_or (store_read h2 a ''fallback_url'')
                             (js_or (store_read h2 a ''original_url'') JNull)))
                  else if truthy (store_read h0 a ''uri'') then
                    (let h1 = store_write h0 processedPost ''streamingUrl'' JNull;
                         h2 = store_write h1 processedPost ''fallbackUrl''
                                (store_read h1 a ''uri'')
                     in store_write h2 processedPost ''uri'' (store_read h2 a ''uri''))
                  else h0)
               in case isStreamPath (store_read h3 a ''thumbnail_url'') of
                    Inl e \<Rightarrow> (h3, Inl e)
                  | Inr thumb \<Rightarrow>
                      (if thumb then
                         (store_write h3 processedPost ''thumbnail_url''
                            (fullUrl (store_read h3 a ''thumbnail_url'')),
                          Inr (ArgObject processedPost))
                       else (h3, Inr (ArgObject processedPost))))))"

section \<open>Scenarios\<close>

text \<open>A post as the catalog sends it, and the entry the list reports for it.\<close>

definition post_of :: "int \<Rightarrow> Post" where
  "post_of i = bundled i ''https://example.org/video.mp4'' 0"

definition token :: "int \<Rightarrow> bool \<Rightarrow> ViewToken" where
  "token i v = \<lparr>item = post_of i, key = toString i, index = i - 1, isViewable = v\<rparr>"

text \<open>
  An item with three different sources: it streams from \<open>A\<close>, its fallback is \<open>B\<close>, its
  original is \<open>C\<close>.
\<close>

definition three_tiers :: Post where
  "three_tiers =
     (bundled 1 ''A'' 0)
       \<lparr>originalUri := Some ''C'', fallbackUrl := Some ''B'', isStreaming := Some True\<rparr>"

text \<open>A mounted post whose player accepts calls and is not playing.\<close>

definition idle_player :: av_player where
  "idle_player = \<lparr>shouldPlay = False, isLoaded = True, rejects = False\<rparr>"

definition mounted_posts :: "int list \<Rightarrow> (key \<rightharpoonup> PostComponent)" where
  "mounted_posts ids =
     map_of (map (\<lambda>i. (toString i, mountPost (post_of i) idle_player)) ids)"

text \<open>Scrolling to item \<open>i\<close>: it becomes viewable, the item before it stops being so.\<close>

definition scroll_to :: "int \<Rightarrow> int \<times> Batch" where
  "scroll_to i =
     (1000 * i,
      \<lparr>viewableItems = [token i True],
       changed = (if i > 1 then [token i True, token (i - 1) False] else [token i True])\<rparr>)"

text \<open>
  The same scroll as the screen of \<open>Feed/index.tsx\<close> receives it: the list reports the
  item that became viewable first, then the one that stopped being so.
\<close>

definition scroll_event :: "int \<Rightarrow> feed_event" where
  "scroll_event i =
     ViewabilityChanged (1000 * i)
       (if i > 1 then [token i True, token (i - 1) False] else [token i True])"

section \<open>Evaluation of the scenarios\<close>

lemma toString_small: "toString 1 = ''1''" "toString 2 = ''2''" "toString 3 = ''3''"
  by (simp_all add: toString_def digits.simps)

lemma mounted_posts_1: "mounted_posts [1] ''1'' = Some (mountPost (post_of 1) idle_player)"
  by (simp add: mounted_posts_def toString_small)

lemma mounted_posts_12:
  "mounted_posts [1, 2] ''1'' = Some (mountPost (post_of 1) idle_player)"
  "mounted_posts [1, 2] ''2'' = Some (mountPost (post_of 2) idle_player)"
  by (simp_all add: mounted_posts_def toString_small)

lemma videoId_of_token [simp]: "videoId_of (token i v) = toString i"
  by (simp add: videoId_of_def token_def post_of_def bundled_def)

lemma token_fields [simp]:
  "key (token i v) = toString i" "isViewable (token i v) = v" "index (token i v) = i - 1"
  "post_id (item (token i v)) = i"
  by (simp_all add: token_def post_of_def bundled_def)

lemma working_mounted_12:
  "working_handle (mountFeed (mounted_posts [1, 2]) active) ''1''"
  "working_handle (mountFeed (mounted_posts [1, 2]) active) ''2''"
  by (simp_all add: working_handle_def mountFeed_def mounted_posts_12 mountPost_def
      idle_player_def)

lemma playing_mounted_12:
  "\<not> playing (mountFeed (mounted_posts [1, 2]) active) ''1''"
  "\<not> playing (mountFeed (mounted_posts [1, 2]) active) ''2''"
  by (simp_all add: playing_def is_playing_def mountFeed_def mounted_posts_12 mountPost_def
      idle_player_def)

lemma activation_scroll_to: "activation (snd (scroll_to i))"
  by (simp add: scroll_to_def activation_def isNewVideoViewed_def)

section \<open>What the calls to a handle change\<close>

lemma call_play_frame [simp]:
  "lastViewedRef (call_play k s) = lastViewedRef s"
  "appStateRef (call_play k s) = appStateRef s"
  "timeSpent (call_play k s) = timeSpent s"
  "videoCount (call_play k s) = videoCount s"
  "showSurvey (call_play k s) = showSurvey s"
  "ctxLastViewedRef (call_play k s) = ctxLastViewedRef s"
  by (simp_all add: call_play_def split: option.splits)

lemma call_pause_frame [simp]:
  "lastViewedRef (call_pause k s) = lastViewedRef s"
  "appStateRef (call_pause k s) = appStateRef s"
  "timeSpent (call_pause k s) = timeSpent s"
  "videoCount (call_pause k s) = videoCount s"
  "showSurvey (call_pause k s) = showSurvey s"
  "ctxLastViewedRef (call_pause k s) = ctxLastViewedRef s"
  by (simp_all add: call_pause_def split: option.splits)

lemma setShowSurveyTrue_frame [simp]:
  "lastViewedRef (setShowSurveyTrue s) = lastViewedRef s"
  "appStateRef (setShowSurveyTrue s) = appStateRef s"
  "timeSpent (setShowSurveyTrue s) = timeSpent s"
  "videoCount (setShowSurveyTrue s) = videoCount s"
  "mediaRefs (setShowSurveyTrue s) = mediaRefs s"
  "calls (setShowSurveyTrue s) = calls s @ [ShowSurvey]"
  by (simp_all add: setShowSurveyTrue_def)

lemma call_play_calls:
  "calls (call_play k s) = calls s @ (if mediaRefs s k = None then [] else [Play k])"
  by (simp add: call_play_def split: option.splits)

lemma call_pause_calls:
  "calls (call_pause k s) = calls s @ (if mediaRefs s k = None then [] else [Pause k])"
  by (simp add: call_pause_def split: option.splits)

lemma call_play_mounted [simp]: "(mediaRefs (call_play k s) j = None) = (mediaRefs s j = None)"
  by (simp add: call_play_def split: option.splits)

lemma call_pause_mounted [simp]: "(mediaRefs (call_pause k s) j = None) = (mediaRefs s j = None)"
  by (simp add: call_pause_def split: option.splits)

section \<open>Scroll depth\<close>

lemma call_play_depth [simp]: "maxScrollDepth (call_play k s) = maxScrollDepth s"
  by (simp add: call_play_def split: option.splits)
lemma call_pause_depth [simp]: "maxScrollDepth (call_pause k s) = maxScrollDepth s"
  by (simp add: call_pause_def split: option.splits)
lemma setShowSurveyTrue_depth [simp]: "maxScrollDepth (setShowSurveyTrue s) = maxScrollDepth s"
  by (simp add: setShowSurveyTrue_def)

lemma changedElement_depth:
  "maxScrollDepth (changedElement now e s) =
     (if isViewable e then max (maxScrollDepth s) (index e + 1) else maxScrollDepth s)"
  by (simp add: changedElement_def Let_def updateScrollDepth_def incrementVideoCount_def
      updateTimeSpent_def)

lemma callback_depth_mono: "maxScrollDepth s \<le> maxScrollDepth (onViewableItemsChangedCallback now els s)"
proof (induction els arbitrary: s)
  case Nil show ?case by simp
next
  case (Cons e els)
  have "maxScrollDepth s \<le> maxScrollDepth (changedElement now e s)"
    by (simp add: changedElement_depth)
  also have "\<dots> \<le> maxScrollDepth (onViewableItemsChangedCallback now els (changedElement now e s))"
    by (rule Cons.IH)
  finally show ?case by simp
qed

lemma handleAppStateChange_depth [simp]: "maxScrollDepth (handleAppStateChange e s) = maxScrollDepth s"
  by (simp add: handleAppStateChange_def Let_def split: option.splits)

lemma apply_op_depth: "opn \<noteq> ResetMetrics \<Longrightarrow> maxScrollDepth s \<le> maxScrollDepth (apply_op opn s)"
  by (cases opn) (simp_all add: updateTimeSpent_def updateScrollDepth_def incrementVideoCount_def saveSurveyResponse_def)

lemma feed_step_depth: "\<not> is_reset e \<Longrightarrow> maxScrollDepth s \<le> maxScrollDepth (feed_step e s)"
proof (cases e)
  case (ContextOp opn)
  assume "\<not> is_reset e"
  with ContextOp have "opn \<noteq> ResetMetrics" by auto
  with ContextOp show ?thesis by (simp add: apply_op_depth)
qed (simp_all add: callback_depth_mono)

lemma feed_events_depth: "\<not> list_ex is_reset evs \<Longrightarrow> maxScrollDepth s \<le> maxScrollDepth (feed_events evs s)"
proof (induction evs arbitrary: s)
  case Nil show ?case by simp
next
  case (Cons e evs)
  from Cons.prems have a: "\<not> is_reset e" and b: "\<not> list_ex is_reset evs" by simp_all
  have "maxScrollDepth s \<le> maxScrollDepth (feed_step e s)" using a by (rule feed_step_depth)
  also have "\<dots> \<le> maxScrollDepth (feed_events evs (feed_step e s))" using b by (rule Cons.IH)
  finally show ?case by simp
qed

lemma changedElement_old_depth [simp]: "maxScrollDepth (changedElement_old now e s) = maxScrollDepth s"
  by (simp add: changedElement_old_def Let_def split: option.splits)

lemma forEach_changed_depth [simp]: "maxScrollDepth (forEach_changed now els s) = maxScrollDepth s"
  by (induction els arbitrary: s) simp_all

lemma setVideoCount_updater_depth [simp]: "maxScrollDepth (setVideoCount_updater s) = maxScrollDepth s"
  by (simp add: setVideoCount_updater_def Let_def)

lemma onViewableItemsChanged_depth:
  "maxScrollDepth (onViewableItemsChanged t b s) =
     (if viewableItems b = [] then maxScrollDepth s
      else max (maxScrollDepth s) (index (last (viewableItems b))))"
  by (simp add: onViewableItemsChanged_def Let_def split: option.splits)

lemma appStateListener_depth [simp]: "maxScrollDepth (appStateListener e s) = maxScrollDepth s"
  by (simp add: appStateListener_def Let_def split: option.splits)

lemma old_step_depth: "maxScrollDepth s \<le> maxScrollDepth (old_step e s)"
  by (cases e) (simp_all add: onViewableItemsChanged_depth)

lemma old_events_depth: "maxScrollDepth s \<le> maxScrollDepth (old_events evs s)"
proof (induction evs arbitrary: s)
  case Nil show ?case by simp
next
  case (Cons e evs)
  have "maxScrollDepth s \<le> maxScrollDepth (old_step e s)" by (rule old_step_depth)
  also have "\<dots> \<le> maxScrollDepth (old_events evs (old_step e s))" by (rule Cons.IH)
  finally show ?case by simp
qed

text \<open>
  Claim C8. The recorded \<open>maxScrollDepth\<close> never decreases except by a reset. An update
  sets it to the maximum of its previous value and the reported depth: through
  \<open>updateScrollDepth\<close>, for each element that became viewable (\<open>index + 1\<close>) in
  \<open>Feed/index.tsx\<close>, and for the last viewable item of a batch in the older screen.
  Over any sequence of viewability batches, application-state changes and context
  operations other than \<open>resetMetrics\<close> the value after is at least the value before,
  and so it is over any sequence of events of the older screen, which has no reset.
\<close>

theorem scroll_depth_non_decreasing:
  "maxScrollDepth (updateScrollDepth depth s) = max (maxScrollDepth s) depth
   \<and> maxScrollDepth (changedElement now element s) =
       (if isViewable element then max (maxScrollDepth s) (index element + 1)
        else maxScrollDepth s)
   \<and> maxScrollDepth (onViewableItemsChanged t b s) =
       (if viewableItems b = [] then maxScrollDepth s
        else max (maxScrollDepth s) (index (last (viewableItems b))))
   \<and> (\<not> list_ex is_reset evs \<longrightarrow> maxScrollDepth s \<le> maxScrollDepth (feed_events evs s))
   \<and> maxScrollDepth s \<le> maxScrollDepth (old_events oevs s)"
  by (simp add: updateScrollDepth_def changedElement_depth onViewableItemsChanged_depth
      feed_events_depth old_events_depth)

theorem scroll_depth_non_decreasing_witness:
  "\<not> list_ex is_reset
       [ViewabilityChanged 0 [token 3 True], ViewabilityChanged 900 [token 2 True, token 3 False]]
   \<and> maxScrollDepth (feed_events
        [ViewabilityChanged 0 [token 3 True], ViewabilityChanged 900 [token 2 True, token 3 False]]
        (mountFeed (mounted_posts [2, 3]) active)) = 3"
  using scroll_depth_non_decreasing
    [of 3 "mountFeed (mounted_posts [2, 3]) active" 0 "token 3 True" 0
        "\<lparr>viewableItems = [], changed = []\<rparr>"
        "[ViewabilityChanged 0 [token 3 True], ViewabilityChanged 900 [token 2 True, token 3 False]]"
        "[]"]
  by (simp add: changedElement_depth token_def mountFeed_def)

section \<open>Playback handle\<close>

text \<open>
  Claim C7. Each of \<open>play\<close>, \<open>pause\<close> and \<open>unload\<close> resolves, whatever the state of the
  post and whether or not the player rejects the call: a rejection is caught. Once the
  ref to the player is detached (the item is unmounting) the three calls change
  nothing. \<open>play\<close> on a handle that is already playing changes nothing, and a second
  \<open>play\<close> leaves the state the first one produced.
\<close>

theorem handle_methods_resolve:
  "fst (play c) = Resolved () \<and> fst (pause c) = Resolved () \<and> fst (unload c) = Resolved ()
   \<and> (videoRef c = None \<longrightarrow> snd (play c) = c \<and> snd (pause c) = c \<and> snd (unload c) = c)
   \<and> (is_playing c \<longrightarrow> snd (play c) = c)
   \<and> snd (play (snd (play c))) = snd (play c)"
  by (auto simp: play_def pause_def unload_def setStatusAsync_def unloadAsync_def is_playing_def
      split: option.splits settled.splits)

theorem handle_methods_resolve_witness:
  "videoRef ((mountPost three_tiers idle_player)\<lparr>videoRef := None\<rparr>) = None
   \<and> play ((mountPost three_tiers idle_player)\<lparr>videoRef := None\<rparr>)
       = (Resolved (), (mountPost three_tiers idle_player)\<lparr>videoRef := None\<rparr>)
   \<and> is_playing (snd (play (mountPost three_tiers idle_player)))
   \<and> play (snd (play (mountPost three_tiers idle_player)))
       = (Resolved (), snd (play (mountPost three_tiers idle_player)))"
  using handle_methods_resolve [of "(mountPost three_tiers idle_player)\<lparr>videoRef := None\<rparr>"]
    handle_methods_resolve [of "snd (play (mountPost three_tiers idle_player))"]
  by (simp add: prod_eq_iff play_def mountPost_def idle_player_def setStatusAsync_def is_playing_def)

section \<open>Catalog fetch\<close>

lemma VIDEOS_not_empty: "VIDEOS \<noteq> []"
  by (simp add: VIDEOS_def)

text \<open>
  Claim C9. When the catalog fetch fails, or returns an empty list, \<open>videos\<close> is set to
  the bundled catalog \<open>VIDEOS\<close>; whatever the fetch gives, the list is not empty once
  the fetch has completed.
\<close>

theorem fetch_falls_back_to_bundled_catalog:
  "videos (fetchVideos head_ok (Inl e) s) = VIDEOS
   \<and> videos (fetchVideos head_ok (Inr []) s) = VIDEOS
   \<and> videos (fetchVideos head_ok r s) \<noteq> []"
proof -
  have failed: "videos (fetchVideos head_ok (Inl e) s) = VIDEOS"
    and none: "videos (fetchVideos head_ok (Inr []) s) = VIDEOS"
    by (simp_all add: fetchVideos_def)
  have "videos (fetchVideos head_ok r s) \<noteq> []"
  proof (cases r)
    case (Inl err)
    then show ?thesis by (simp add: fetchVideos_def VIDEOS_not_empty)
  next
    case (Inr apiVideos)
    show ?thesis
    proof (cases apiVideos)
      case Nil
      with Inr show ?thesis by (simp add: fetchVideos_def VIDEOS_not_empty)
    next
      case (Cons v vs)
      with Inr show ?thesis by (simp add: fetchVideos_def)
    qed
  qed
  with failed none show ?thesis by blast
qed

section \<open>processVideoUrls and its argument\<close>

lemma take_store_write: "n \<le> a \<Longrightarrow> take n (store_write h a f v) = take n h"
  by (simp add: store_write_def)

lemma length_store_write [simp]: "length (store_write h a f v) = length h"
  by (simp add: store_write_def)

lemma js_error_unique [simp]: "(e::js_error) = TypeError"
  by (cases e) simp

lemma processVideoUrls_take: "take (length h) (fst (processVideoUrls h post)) = h"
  by (cases post)
     (auto simp: processVideoUrls_def spread_copy_def Let_def take_store_write
        split: sum.splits)

lemma processVideoUrls_result:
  "snd (processVideoUrls h (ArgObject a)) = Inl TypeError
   \<or> snd (processVideoUrls h (ArgObject a)) = Inr (ArgObject (length h))"
  by (auto simp: processVideoUrls_def spread_copy_def Let_def split: sum.splits)

lemma processVideoUrls_length:
  "length (fst (processVideoUrls h (ArgObject a))) = Suc (length h)"
  by (auto simp: processVideoUrls_def spread_copy_def Let_def split: sum.splits)

text \<open>
  Claim C10. \<open>processVideoUrls\<close> does not mutate its argument. Every object of the store
  is after the call what it was before, the argument among them; \<open>null\<close> and \<open>undefined\<close>
  are returned as they are, with the store unchanged; for an object the call allocates
  one new object and returns that one (or throws on a property that is truthy and not
  a string, still without a change to any existing object).
\<close>

theorem processVideoUrls_leaves_argument_unchanged:
  "take (length h) (fst (processVideoUrls h post)) = h
   \<and> processVideoUrls h ArgNull = (h, Inr ArgNull)
   \<and> processVideoUrls h ArgUndefined = (h, Inr ArgUndefined)
   \<and> (snd (processVideoUrls h (ArgObject a)) = Inl TypeError
        \<or> snd (processVideoUrls h (ArgObject a)) = Inr (ArgObject (length h)))
   \<and> length (fst (processVideoUrls h (ArgObject a))) = Suc (length h)
   \<and> (a < length h \<longrightarrow> fst (processVideoUrls h (ArgObject a)) ! a = h ! a)"
proof -
  have "a < length h \<longrightarrow> fst (processVideoUrls h (ArgObject a)) ! a = h ! a"
  proof
    assume a: "a < length h"
    have "take (length h) (fst (processVideoUrls h (ArgObject a))) ! a = h ! a"
      by (simp add: processVideoUrls_take)
    with a show "fst (processVideoUrls h (ArgObject a)) ! a = h ! a"
      by simp
  qed
  moreover have "processVideoUrls h ArgNull = (h, Inr ArgNull)"
    and "processVideoUrls h ArgUndefined = (h, Inr ArgUndefined)"
    by (simp_all add: processVideoUrls_def)
  ultimately show ?thesis
    using processVideoUrls_take [of h post] processVideoUrls_result [of h a]
      processVideoUrls_length [of h a]
    by blast
qed

theorem processVideoUrls_leaves_argument_unchanged_witness:
  "(0::nat) < length [[''uri'' \<mapsto> JStr ''/api/stream/v1.mp4'', ''fallback_url'' \<mapsto> JStr ''https://cdn/v1.mp4'']]
   \<and> store_read (fst (processVideoUrls
          [[''uri'' \<mapsto> JStr ''/api/stream/v1.mp4'', ''fallback_url'' \<mapsto> JStr ''https://cdn/v1.mp4'']]
          (ArgObject 0))) 0 ''uri'' = JStr ''/api/stream/v1.mp4''
   \<and> store_read (fst (processVideoUrls
          [[''uri'' \<mapsto> JStr ''/api/stream/v1.mp4'', ''fallback_url'' \<mapsto> JStr ''https://cdn/v1.mp4'']]
          (ArgObject 0))) 1 ''uri'' = JStr ''http://192.168.1.10:3000/api/stream/v1.mp4''"
proof -
  let ?h = "[[''uri'' \<mapsto> JStr ''/api/stream/v1.mp4'', ''fallback_url'' \<mapsto> JStr ''https://cdn/v1.mp4'']]"
  have len: "(0::nat) < length ?h" by simp
  have same: "fst (processVideoUrls ?h (ArgObject 0)) ! 0 = ?h ! 0"
    using processVideoUrls_leaves_argument_unchanged [of ?h "ArgObject 0" 0] len by blast
  have orig: "store_read (fst (processVideoUrls ?h (ArgObject 0))) 0 ''uri'' = JStr ''/api/stream/v1.mp4''"
    unfolding store_read_def same by simp
  have new: "store_read (fst (processVideoUrls ?h (ArgObject 0))) 1 ''uri''
      = JStr ''http://192.168.1.10:3000/api/stream/v1.mp4''"
    by (simp add: processVideoUrls_def spread_copy_def store_read_def store_write_def
        isStreamPath_def truthy_def startsWith_def fullUrl_def js_or_def API_HOST_def Let_def)
  from len orig new show ?thesis by blast
qed

section \<open>Load errors\<close>

lemma handleVideoError_hasError:
  "hasError c \<Longrightarrow> handleVideoError data c = c\<lparr>isLoading := False, hasError := True\<rparr>"
  by (simp add: handleVideoError_def)

lemma retries_hasError: "hasError c \<Longrightarrow> retries data n c = []"
  by (induction n arbitrary: c) (simp_all add: handleVideoError_hasError Let_def)

lemma after_failures_hasError: "hasError c \<Longrightarrow> exhausted (after_failures data (Suc n) c)"
  by (induction n arbitrary: c) (simp_all add: handleVideoError_hasError exhausted_def)

lemma hasError_handleVideoError [simp]: "hasError (handleVideoError data c)"
  by (simp add: handleVideoError_def)

lemma retries_first:
  "retries data (Suc n) (mountPost data p) =
     (if isStreaming data = Some True \<and> truthy_str (fallbackUrl data)
      then [the (fallbackUrl data)]
      else if truthy_str (originalUri data) \<and> originalUri data \<noteq> Some (uri data)
      then [the (originalUri data)]
      else [])"
  by (auto simp: Let_def retries_hasError handleVideoError_def mountPost_def truthy_str_def
      split: option.splits)

text \<open>
  Claim C3, as the code has it. When every load fails, the sources tried are the
  item's \<open>uri\<close> and then at most one alternative: \<open>fallbackUrl\<close> when the item is streaming
  and has one, otherwise \<open>originalUri\<close> when it is set and differs from the current
  source. \<open>hasError\<close> is set by the first failure and bars both retry branches, so the
  second failure ends in the terminal error state; when the fallback differs from
  \<open>uri\<close> no source is tried twice.
\<close>

theorem one_alternative_then_exhausted:
  "load_attempts data p (Suc n) =
     uri data #
     (if isStreaming data = Some True \<and> truthy_str (fallbackUrl data)
      then [the (fallbackUrl data)]
      else if truthy_str (originalUri data) \<and> originalUri data \<noteq> Some (uri data)
      then [the (originalUri data)]
      else [])
   \<and> exhausted (after_failures data (Suc (Suc n)) (mountPost data p))
   \<and> (fallbackUrl data \<noteq> Some (uri data) \<longrightarrow> distinct (load_attempts data p (Suc n)))"
proof -
  have "exhausted (after_failures data (Suc (Suc n)) (mountPost data p))"
    using after_failures_hasError [of "handleVideoError data (mountPost data p)" data n]
    by simp
  moreover have "fallbackUrl data \<noteq> Some (uri data) \<longrightarrow> distinct (load_attempts data p (Suc n))"
    unfolding load_attempts_def retries_first
    by (auto simp: truthy_str_def split: option.splits)
  ultimately show ?thesis
    unfolding load_attempts_def retries_first by blast
qed

theorem one_alternative_then_exhausted_witness:
  "fallbackUrl three_tiers \<noteq> Some (uri three_tiers)
   \<and> load_attempts three_tiers idle_player 5 = [''A'', ''B'']
   \<and> distinct (load_attempts three_tiers idle_player 5)"
  using one_alternative_then_exhausted [of three_tiers idle_player 4]
  by (simp add: three_tiers_def bundled_def truthy_str_def)

text \<open>
  Claim C3, as stated, fails: with the three sources \<open>A\<close>, \<open>B\<close>, \<open>C\<close> all failing, the
  attempts are \<open>A\<close> and \<open>B\<close>, and the second failure exhausts the item; \<open>C\<close> is not tried.
\<close>

theorem third_tier_never_attempted:
  "load_attempts three_tiers idle_player 3 \<noteq> [''A'', ''B'', ''C'']
   \<and> load_attempts three_tiers idle_player 3 = [''A'', ''B'']
   \<and> exhausted (after_failures three_tiers 2 (mountPost three_tiers idle_player))"
  by (simp add: load_attempts_def numeral_3_eq_3 numeral_2_eq_2 Let_def handleVideoError_def
      mountPost_def three_tiers_def bundled_def truthy_str_def exhausted_def)

section \<open>Application state\<close>

lemma handleAppStateChange_frame [simp]:
  "lastViewedRef (handleAppStateChange e s) = lastViewedRef s"
  "appStateRef (handleAppStateChange e s) = e"
  "(mediaRefs (handleAppStateChange e s) j = None) = (mediaRefs s j = None)"
  by (simp_all add: handleAppStateChange_def Let_def split: option.splits)



text \<open>
  The listener of the older screen keeps no record of the state observed before: it
  plays the current item on every \<open>active\<close> it is told of.
\<close>

lemma appStateListener_plays_on_every_active:
  "contentId (lastViewedRef s) = Some cid \<Longrightarrow> cid \<noteq> [] \<Longrightarrow> mediaRefs s cid \<noteq> None \<Longrightarrow>
     calls (appStateListener active s) = calls s @ [Play cid]"
  by (auto simp: appStateListener_def Let_def truthy_str_def call_play_calls)



section \<open>Which items play after a batch\<close>

lemma working_handle_cong: "mediaRefs s' = mediaRefs s \<Longrightarrow> working_handle s' = working_handle s"
  by (rule ext) (simp add: working_handle_def)

lemma playing_cong: "mediaRefs s' = mediaRefs s \<Longrightarrow> playing s' = playing s"
  by (rule ext) (simp add: playing_def)

lemma call_play_working [simp]: "working_handle (call_play k s) j = working_handle s j"
  by (auto simp: working_handle_def call_play_def play_def setStatusAsync_def
      split: option.splits)

lemma call_pause_working [simp]: "working_handle (call_pause k s) j = working_handle s j"
  by (auto simp: working_handle_def call_pause_def pause_def setStatusAsync_def
      split: option.splits)

lemma call_play_playing:
  "working_handle s j \<Longrightarrow> playing (call_play k s) j = (if k = j then True else playing s j)"
  by (auto simp: working_handle_def playing_def call_play_def play_def setStatusAsync_def
      is_playing_def split: option.splits)

lemma call_pause_playing:
  "working_handle s j \<Longrightarrow> playing (call_pause k s) j = (if k = j then False else playing s j)"
  by (auto simp: working_handle_def playing_def call_pause_def pause_def setStatusAsync_def
      is_playing_def split: option.splits)

lemma changedElement_old_mediaRefs:
  "mediaRefs (changedElement_old now e s) =
     (case mediaRefs s (key e) of None \<Rightarrow> mediaRefs s
      | Some c \<Rightarrow> mediaRefs (if isViewable e then call_play (key e) s else call_pause (key e) s))"
  by (simp add: changedElement_old_def Let_def split: option.splits)

lemma changedElement_old_working [simp]:
  "working_handle (changedElement_old now e s) j = working_handle s j"
proof -
  have "working_handle (changedElement_old now e s) =
        working_handle (case mediaRefs s (key e) of None \<Rightarrow> s
          | Some c \<Rightarrow> (if isViewable e then call_play (key e) s else call_pause (key e) s))"
    by (rule working_handle_cong) (simp add: changedElement_old_mediaRefs split: option.splits)
  then show ?thesis by (simp split: option.splits)
qed

lemma changedElement_old_playing:
  assumes "working_handle s j"
  shows "playing (changedElement_old now e s) j = (if key e = j then isViewable e else playing s j)"
proof -
  have "playing (changedElement_old now e s) =
        playing (case mediaRefs s (key e) of None \<Rightarrow> s
          | Some c \<Rightarrow> (if isViewable e then call_play (key e) s else call_pause (key e) s))"
    by (rule playing_cong) (simp add: changedElement_old_mediaRefs split: option.splits)
  moreover have "key e = j \<Longrightarrow> mediaRefs s (key e) \<noteq> None"
    using assms by (auto simp: working_handle_def split: option.splits)
  ultimately show ?thesis
    using assms by (auto simp: call_play_playing call_pause_playing split: option.splits)
qed

lemma forEach_changed_playing:
  "working_handle s j \<Longrightarrow>
     playing (forEach_changed now els s) j =
       (case last_report key j els of Some v \<Rightarrow> v | None \<Rightarrow> playing s j)"
proof (induction els arbitrary: s)
  case Nil
  show ?case by simp
next
  case (Cons e els)
  have w: "working_handle (changedElement_old now e s) j"
    using Cons.prems by simp
  show ?case
    using Cons.IH [OF w] Cons.prems
    by (simp add: changedElement_old_playing split: option.splits)
qed

lemma changedElement_mediaRefs:
  "mediaRefs (changedElement now e s) =
     mediaRefs (if isViewable e then call_play (videoId_of e) s else call_pause (videoId_of e) s)"
  by (simp add: changedElement_def Let_def videoId_of_def updateScrollDepth_def
      incrementVideoCount_def updateTimeSpent_def)

lemma changedElement_working [simp]:
  "working_handle (changedElement now e s) j = working_handle s j"
proof -
  have "working_handle (changedElement now e s) =
        working_handle (if isViewable e then call_play (videoId_of e) s else call_pause (videoId_of e) s)"
    by (rule working_handle_cong) (simp add: changedElement_mediaRefs)
  then show ?thesis by simp
qed

lemma changedElement_playing:
  assumes "working_handle s j"
  shows "playing (changedElement now e s) j = (if videoId_of e = j then isViewable e else playing s j)"
proof -
  have "playing (changedElement now e s) =
        playing (if isViewable e then call_play (videoId_of e) s else call_pause (videoId_of e) s)"
    by (rule playing_cong) (simp add: changedElement_mediaRefs)
  then show ?thesis
    using assms by (auto simp: call_play_playing call_pause_playing)
qed

lemma callback_playing:
  "working_handle s j \<Longrightarrow>
     playing (onViewableItemsChangedCallback now els s) j =
       (case last_report videoId_of j els of Some v \<Rightarrow> v | None \<Rightarrow> playing s j)"
proof (induction els arbitrary: s)
  case Nil
  show ?case by simp
next
  case (Cons e els)
  have w: "working_handle (changedElement now e s) j"
    using Cons.prems by simp
  show ?case
    using Cons.IH [OF w] Cons.prems
    by (simp add: changedElement_playing split: option.splits)
qed

lemma setVideoCount_updater_mediaRefs [simp]:
  "mediaRefs (setVideoCount_updater s) = mediaRefs s"
  by (simp add: setVideoCount_updater_def Let_def)

lemma onViewableItemsChanged_playing:
  assumes "working_handle s j"
  shows "playing (onViewableItemsChanged t b s) j =
       (case last_report key j (changed b) of Some v \<Rightarrow> v | None \<Rightarrow> playing s j)"
proof -
  define s4 where "s4 =
     (let s1 = (case contentId (lastViewedRef s) of
                  Some lastContentId \<Rightarrow>
                    (let duration = minus_nullable t (startTime (lastViewedRef s))
                     in s\<lparr>timeSpent := addTime lastContentId duration (timeSpent s)\<rparr>)
                | None \<Rightarrow> s);
          s2 = (if length (viewableItems b) > 0 then
                  s1\<lparr>lastViewedRef :=
                       \<lparr>startTime = Some t,
                        contentId = Some (key (hd (viewableItems b)))\<rparr>\<rparr>
                else s1);
          s3 = (if length (viewableItems b) > 0 then
                  s2\<lparr>maxScrollDepth := max (maxScrollDepth s2) (index (last (viewableItems b)))\<rparr>
                else s2)
      in (if length (viewableItems b) > 0 then
                  (if isNewVideoViewed b then setVideoCount_updater s3 else s3)
                else s3))"
  have m: "mediaRefs s4 = mediaRefs s"
    by (simp add: s4_def Let_def split: option.splits)
  have run: "onViewableItemsChanged t b s = forEach_changed t (changed b) s4"
    by (simp add: onViewableItemsChanged_def s4_def Let_def)
  have w: "working_handle s4 j" using assms working_handle_cong [OF m] by simp
  have p: "playing s4 j = playing s j" using playing_cong [OF m] by simp
  show ?thesis
    unfolding run forEach_changed_playing [OF w] p by simp
qed

text \<open>
  Claim C2, as the code has it. After a batch, in either screen, an item whose post is
  mounted with a player that accepts calls is playing exactly when the last entry of
  \<open>changed\<close> for it reports it viewable; an item the batch does not report keeps the
  state it had. The batch pauses only the items it reports as not viewable: an item
  played earlier in the batch is not paused because a later one is played.
\<close>

theorem last_report_decides_playing:
  "working_handle s k \<Longrightarrow>
     playing (onViewableItemsChanged t b s) k =
       (case last_report key k (changed b) of Some v \<Rightarrow> v | None \<Rightarrow> playing s k)
     \<and> playing (onViewableItemsChangedCallback now els s) k =
       (case last_report videoId_of k els of Some v \<Rightarrow> v | None \<Rightarrow> playing s k)"
proof -
  assume w: "working_handle s k"
  have older: "playing (onViewableItemsChanged t b s) k =
      (case last_report key k (changed b) of Some v \<Rightarrow> v | None \<Rightarrow> playing s k)"
    using w by (rule onViewableItemsChanged_playing)
  have newer: "playing (onViewableItemsChangedCallback now els s) k =
      (case last_report videoId_of k els of Some v \<Rightarrow> v | None \<Rightarrow> playing s k)"
    using w by (rule callback_playing)
  from older newer show ?thesis by (rule conjI)
qed

theorem last_report_decides_playing_witness:
  "working_handle (mountFeed (mounted_posts [1, 2]) active) ''1''
   \<and> \<not> playing (onViewableItemsChanged 0
         \<lparr>viewableItems = [token 2 True],
          changed = [token 1 True, token 2 True, token 1 False]\<rparr>
         (mountFeed (mounted_posts [1, 2]) active)) ''1''
   \<and> \<not> playing (onViewableItemsChangedCallback 0
         [token 1 True, token 2 True, token 1 False]
         (mountFeed (mounted_posts [1, 2]) active)) ''1''"
proof -
  from last_report_decides_playing [OF working_mounted_12(1), of 0
      "\<lparr>viewableItems = [token 2 True],
          changed = [token 1 True, token 2 True, token 1 False]\<rparr>"
      0 "[token 1 True, token 2 True, token 1 False]"]
  show ?thesis
    using working_mounted_12(1) by (simp add: toString_small)
qed

text \<open>
  Claim C2, as stated, fails: a batch that reports two items viewable leaves both
  playing, in either screen.
\<close>

theorem two_viewable_items_both_left_playing:
  "playing (onViewableItemsChanged 0
       \<lparr>viewableItems = [token 1 True, token 2 True], changed = [token 1 True, token 2 True]\<rparr>
       (mountFeed (mounted_posts [1, 2]) active)) ''1''
   \<and> playing (onViewableItemsChanged 0
       \<lparr>viewableItems = [token 1 True, token 2 True], changed = [token 1 True, token 2 True]\<rparr>
       (mountFeed (mounted_posts [1, 2]) active)) ''2''
   \<and> playing (onViewableItemsChangedCallback 0 [token 1 True, token 2 True]
       (mountFeed (mounted_posts [1, 2]) active)) ''1''
   \<and> playing (onViewableItemsChangedCallback 0 [token 1 True, token 2 True]
       (mountFeed (mounted_posts [1, 2]) active)) ''2''
   \<and> ''1'' \<noteq> ''2''"
proof -
  show ?thesis
    unfolding onViewableItemsChanged_playing [OF working_mounted_12(1)]
      onViewableItemsChanged_playing [OF working_mounted_12(2)]
      callback_playing [OF working_mounted_12(1)]
      callback_playing [OF working_mounted_12(2)]
    by (simp add: toString_small)
qed

section \<open>Survey at every fifth viewed video\<close>

lemma changedElement_old_survey [simp]:
  "count_list (calls (changedElement_old now e s)) ShowSurvey = count_list (calls s) ShowSurvey"
  by (simp add: changedElement_old_def Let_def call_play_calls call_pause_calls
      split: option.splits)

lemma changedElement_old_videoCount [simp]:
  "videoCount (changedElement_old now e s) = videoCount s"
  by (simp add: changedElement_old_def Let_def split: option.splits)

lemma forEach_changed_survey [simp]:
  "count_list (calls (forEach_changed now els s)) ShowSurvey = count_list (calls s) ShowSurvey"
  by (induction els arbitrary: s) simp_all

lemma forEach_changed_videoCount [simp]:
  "videoCount (forEach_changed now els s) = videoCount s"
  by (induction els arbitrary: s) simp_all

lemma onViewableItemsChanged_videoCount:
  "videoCount (onViewableItemsChanged t b s) = videoCount s + (if activation b then 1 else 0)"
  by (simp add: onViewableItemsChanged_def Let_def activation_def setVideoCount_updater_def
      split: option.splits)

lemma onViewableItemsChanged_survey:
  "count_list (calls (onViewableItemsChanged t b s)) ShowSurvey =
     count_list (calls s) ShowSurvey
     + (if activation b \<and> (videoCount s + 1) mod 5 = 0 then 1 else 0)"
  by (simp add: onViewableItemsChanged_def Let_def activation_def setVideoCount_updater_def
      split: option.splits)

lemma survey_counts_activations:
  "list_all (\<lambda>tb. activation (snd tb)) bs \<Longrightarrow>
     survey_counts bs s =
       filter (\<lambda>k. k mod 5 = 0) [videoCount s + 1 .. videoCount s + int (length bs)]"
proof (induction bs arbitrary: s)
  case Nil
  show ?case by simp
next
  case (Cons tb bs)
  obtain t b where tb: "tb = (t, b)" by (cases tb)
  from Cons.prems tb have act: "activation b"
    and rest: "list_all (\<lambda>tb. activation (snd tb)) bs" by simp_all
  let ?s' = "onViewableItemsChanged t b s"
  have vc: "videoCount ?s' = videoCount s + 1"
    using act by (simp add: onViewableItemsChanged_videoCount)
  have fired: "(count_list (calls ?s') ShowSurvey > count_list (calls s) ShowSurvey)
                 = ((videoCount s + 1) mod 5 = 0)"
    using act by (simp add: onViewableItemsChanged_survey)
  have up: "[videoCount s + 1 .. videoCount s + int (length (tb # bs))]
        = (videoCount s + 1) # [videoCount ?s' + 1 .. videoCount ?s' + int (length bs)]"
    by (subst upto_rec1) (simp_all add: vc add.commute add.left_commute)
  have sc: "survey_counts (tb # bs) s =
      (if (videoCount s + 1) mod 5 = 0 then [videoCount s + 1] else []) @ survey_counts bs ?s'"
    unfolding tb by (simp add: Let_def fired vc)
  have ih: "survey_counts bs ?s' =
      filter (\<lambda>k. k mod 5 = 0) [videoCount ?s' + 1 .. videoCount ?s' + int (length bs)]"
    using rest by (rule Cons.IH)
  show ?case
    unfolding sc ih up by simp
qed

text \<open>
  The screen of \<open>Feed/index.tsx\<close> counts the videos but has no test of the count: its
  viewability batches never show the survey.
\<close>

lemma changedElement_survey [simp]:
  "count_list (calls (changedElement now e s)) ShowSurvey = count_list (calls s) ShowSurvey"
  by (simp add: changedElement_def Let_def call_play_calls call_pause_calls
      updateTimeSpent_def updateScrollDepth_def incrementVideoCount_def)

lemma callback_never_shows_survey:
  "count_list (calls (onViewableItemsChangedCallback now els s)) ShowSurvey
     = count_list (calls s) ShowSurvey"
  by (induction els arbitrary: s) simp_all

text \<open>
  The older screen does what the specification says of the trigger. A batch adds one
  to \<open>videoCount\<close> exactly when it is an activation, and it shows the survey once exactly
  when that brings the count to a multiple of 5, and not otherwise. Over any run of
  activations the counts at which the survey was shown are the multiples of 5 among
  the counts reached; for ten activations from 0 these are 5 and 10.
\<close>

theorem survey_at_every_fifth_activation:
  "videoCount (onViewableItemsChanged t b s) = videoCount s + (if activation b then 1 else 0)
   \<and> count_list (calls (onViewableItemsChanged t b s)) ShowSurvey =
       count_list (calls s) ShowSurvey
       + (if activation b \<and> (videoCount s + 1) mod 5 = 0 then 1 else 0)
   \<and> (list_all (\<lambda>tb. activation (snd tb)) bs \<longrightarrow>
        survey_counts bs s =
          filter (\<lambda>k. k mod 5 = 0) [videoCount s + 1 .. videoCount s + int (length bs)])"
  by (simp add: onViewableItemsChanged_videoCount onViewableItemsChanged_survey
      survey_counts_activations)

theorem survey_at_every_fifth_activation_witness:
  "list_all (\<lambda>tb. activation (snd tb)) (map scroll_to [1, 2, 3, 4, 5, 6, 7, 8, 9, 10])
   \<and> survey_counts (map scroll_to [1, 2, 3, 4, 5, 6, 7, 8, 9, 10])
        (mountFeed (mounted_posts [1, 2, 3, 4, 5, 6, 7, 8, 9, 10]) active) = [5, 10]"
proof -
  have acts: "list_all (\<lambda>tb. activation (snd tb)) (map scroll_to [1, 2, 3, 4, 5, 6, 7, 8, 9, 10])"
    by (simp add: activation_scroll_to)
  have vc: "videoCount (mountFeed (mounted_posts [1, 2, 3, 4, 5, 6, 7, 8, 9, 10]) active) = 0"
    by (simp add: mountFeed_def)
  have "filter (\<lambda>k. k mod 5 = 0) [(1::int) .. 10] = [5, 10]"
    by code_simp
  with survey_at_every_fifth_activation
    [of 0 "snd (scroll_to 1)" "mountFeed (mounted_posts [1, 2, 3, 4, 5, 6, 7, 8, 9, 10]) active"
        "map scroll_to [1, 2, 3, 4, 5, 6, 7, 8, 9, 10]"]
    acts vc
  show ?thesis by simp
qed

text \<open>
  In \<open>Feed/index.tsx\<close> an element that became viewable adds one to \<open>videoCount\<close>, and
  nothing in a batch touches \<open>showSurvey\<close>.
\<close>

lemma changedElement_videoCount:
  "videoCount (changedElement now e s) = videoCount s + (if isViewable e then 1 else 0)"
  by (simp add: changedElement_def Let_def updateTimeSpent_def updateScrollDepth_def
      incrementVideoCount_def)

lemma changedElement_showSurvey [simp]:
  "showSurvey (changedElement now e s) = showSurvey s"
  by (simp add: changedElement_def Let_def updateTimeSpent_def updateScrollDepth_def
      incrementVideoCount_def)

lemma callback_showSurvey [simp]:
  "showSurvey (onViewableItemsChangedCallback now els s) = showSurvey s"
  by (induction els arbitrary: s) simp_all

lemma scroll_event_step:
  "videoCount (feed_step (scroll_event i) s) = videoCount s + 1"
  "count_list (calls (feed_step (scroll_event i) s)) ShowSurvey = count_list (calls s) ShowSurvey"
  "showSurvey (feed_step (scroll_event i) s) = showSurvey s"
  by (simp_all add: scroll_event_def changedElement_videoCount callback_never_shows_survey)

lemma scroll_events_run:
  "videoCount (feed_events (map scroll_event ids) s) = videoCount s + int (length ids)
   \<and> count_list (calls (feed_events (map scroll_event ids) s)) ShowSurvey
       = count_list (calls s) ShowSurvey
   \<and> showSurvey (feed_events (map scroll_event ids) s) = showSurvey s"
proof (induction ids arbitrary: s)
  case Nil
  show ?case by simp
next
  case (Cons i ids)
  show ?case
    using Cons.IH [of "feed_step (scroll_event i) s"]
    by (simp add: scroll_event_step)
qed

text \<open>
  Claim C4 at a failing input of \<open>Feed/index.tsx\<close>, the screen the navigator mounts.
  Items 1 to 10 are activated one after the other: \<open>videoCount\<close> reaches 10, having
  passed 5, and the survey was never shown; \<open>setShowSurvey(true)\<close> is called in
  \<open>handleAppStateChange\<close> alone. The older screen shows it at 5 and at 10.
\<close>

theorem ten_activations_show_no_survey:
  "videoCount
     (feed_events (map scroll_event [1, 2, 3, 4, 5, 6, 7, 8, 9, 10])
        (mountFeed (mounted_posts [1, 2, 3, 4, 5, 6, 7, 8, 9, 10]) active)) = 10
   \<and> count_list (calls
        (feed_events (map scroll_event [1, 2, 3, 4, 5, 6, 7, 8, 9, 10])
           (mountFeed (mounted_posts [1, 2, 3, 4, 5, 6, 7, 8, 9, 10]) active))) ShowSurvey = 0
   \<and> \<not> showSurvey
        (feed_events (map scroll_event [1, 2, 3, 4, 5, 6, 7, 8, 9, 10])
           (mountFeed (mounted_posts [1, 2, 3, 4, 5, 6, 7, 8, 9, 10]) active))"
proof -
  let ?s0 = "mountFeed (mounted_posts [1, 2, 3, 4, 5, 6, 7, 8, 9, 10]) active"
  have start: "videoCount ?s0 = 0" "calls ?s0 = []" "\<not> showSurvey ?s0"
    by (simp_all add: mountFeed_def)
  from scroll_events_run [of "[1, 2, 3, 4, 5, 6, 7, 8, 9, 10]" ?s0] start
  show ?thesis by simp
qed

section \<open>Time spent per item\<close>

lemmas old_screen_eval =
  onViewableItemsChanged_def Let_def changedElement_old_def call_play_def call_pause_def
  play_def pause_def setStatusAsync_def mountFeed_def mounted_posts_12 mountPost_def
  idle_player_def addTime_def minus_nullable_def isNewVideoViewed_def setVideoCount_updater_def
  setShowSurveyTrue_def toString_small noSession_def

lemmas new_screen_eval =
  changedElement_def Let_def call_play_def call_pause_def play_def pause_def setStatusAsync_def
  mountFeed_def mounted_posts_1 mounted_posts_12 mountPost_def idle_player_def addTime_def
  minus_nullable_def truthy_num_def updateTimeSpent_def updateScrollDepth_def
  incrementVideoCount_def resetMetrics_def toString_small noSession_def



lemma replaced_session_not_credited:
  "timeSpent
     (feed_events
        [ViewabilityChanged 100 [token 1 True],
         ViewabilityChanged 1300 [token 2 True, token 1 False]]
        (mountFeed (mounted_posts [1, 2]) active)) ''1'' = None"
  by (simp add: new_screen_eval)

lemma hidden_item_credited_once:
  "timeSpent
     (feed_events
        [ViewabilityChanged 100 [token 1 True],
         ViewabilityChanged 1300 [token 1 False],
         ViewabilityChanged 1300 [token 1 False]]
        (mountFeed (mounted_posts [1]) active)) ''1'' = Some 1200"
  by (simp add: new_screen_eval)

text \<open>
  Claim C1 at a failing input of the older screen. Item 1 becomes viewable at 0 and
  stops being viewable at 1200, with no item viewable in that batch: one session of
  1200 ms. The callback credits it at its start (a session is open) and again in
  \<open>changed.forEach\<close> (the element is the item of \<open>lastViewedRef\<close>, which an empty
  \<open>viewableItems\<close> left as it was): \<open>timeSpent\<close> is 2400. The session is still open
  afterwards, so the next batch, at 2000, credits the time since 0 once more.
\<close>

theorem hidden_item_credited_twice:
  "timeSpent
     (batches
        [(0, \<lparr>viewableItems = [token 1 True], changed = [token 1 True]\<rparr>),
         (1200, \<lparr>viewableItems = [], changed = [token 1 False]\<rparr>)]
        (mountFeed (mounted_posts [1, 2]) active)) ''1'' = Some 2400
   \<and> lastViewedRef
     (batches
        [(0, \<lparr>viewableItems = [token 1 True], changed = [token 1 True]\<rparr>),
         (1200, \<lparr>viewableItems = [], changed = [token 1 False]\<rparr>)]
        (mountFeed (mounted_posts [1, 2]) active)) = \<lparr>startTime = Some 0, contentId = Some ''1''\<rparr>
   \<and> timeSpent
     (batches
        [(0, \<lparr>viewableItems = [token 1 True], changed = [token 1 True]\<rparr>),
         (1200, \<lparr>viewableItems = [], changed = [token 1 False]\<rparr>),
         (2000, \<lparr>viewableItems = [token 2 True], changed = [token 2 True]\<rparr>)]
        (mountFeed (mounted_posts [1, 2]) active)) ''1'' = Some 4400"
  by (simp add: old_screen_eval)

section \<open>Reset\<close>

text \<open>
  \<open>resetMetrics\<close> itself clears the \<open>lastViewedRef\<close> of the provider and leaves the one
  of the screen as it is. The screen has no session at a reset for another reason: the
  reset runs in the mount effect, on a screen whose ref is new.
\<close>

lemma resetMetrics_keeps_screen_ref: "lastViewedRef (resetMetrics s) = lastViewedRef s"
  by (simp add: resetMetrics_def)


lemma handleAppStateChange_timeSpent [simp]:
  "timeSpent (handleAppStateChange e s) = timeSpent s"
  by (simp add: handleAppStateChange_def Let_def split: option.splits)






end
